theory Spec2Isabelle
  imports Main
begin

section \<open>The hybrid container \<open>vector_with_small_size_optimization\<close>\<close>

text \<open>
  The class \<open>vector_with_small_size_optimization<VAL, small_size, alignment>\<close> keeps a
  \<open>std::vector\<close> \<open>m_v\<close>, a \<open>std::array<T, small_size>\<close> \<open>m_a\<close>, the flag
  \<open>m_is_small\<close> and the count \<open>m_size\<close>. The template parameter \<open>small_size\<close> is the
  parameter \<open>K\<close> of the operations below, and the value-initialised element \<open>T()\<close> that
  \<open>std::vector::resize\<close> appends is the parameter \<open>d\<close>.
\<close>

subsection \<open>The standard-library collaborators\<close>

text \<open>
  \<open>large_vec = std::vector<T, ALLOC>\<close>: its elements and its capacity. The vector asks
  its allocator for a new block only when it needs room for more elements than its
  capacity.
\<close>

record 'a large_vec =
  elems :: "'a list"
  capacity :: nat

text \<open>
  \<open>ALLOC = mrpt::aligned_allocator_cpp11<T>\<close> is not part of the class; it is a
  parameter. \<open>al cap need\<close> answers a vector of capacity \<open>cap\<close> that needs room for
  \<open>need\<close> elements: \<open>Some c\<close> is a new block for \<open>c\<close> elements (how far a vector grows
  beyond what it needs is left to the standard library), \<open>None\<close> is the exception
  that ends the request (\<open>std::bad_alloc\<close> from the allocator, or \<open>std::length_error\<close>
  for a size beyond \<open>max_size()\<close>).
\<close>

type_synonym ALLOC = "nat \<Rightarrow> nat \<Rightarrow> nat option"

definition never_fails :: "ALLOC \<Rightarrow> bool" where
  "never_fails al = (\<forall>cap need. al cap need \<noteq> None)"

definition vec_reallocate :: "ALLOC \<Rightarrow> nat \<Rightarrow> 'a large_vec \<Rightarrow> 'a large_vec option" where
  "vec_reallocate al need v =
     (if need \<le> capacity v then Some v
      else (case al (capacity v) need of
              None \<Rightarrow> None
            | Some c \<Rightarrow> Some (v\<lparr>capacity := max c need\<rparr>)))"

text \<open>
  \<open>v.assign(first, last)\<close>, the range given as the list \<open>xs\<close> of its elements. The
  new block is allocated before the vector is touched, as libstdc++ does, so that a
  failed allocation leaves the vector as it was.
\<close>

definition vec_assign :: "ALLOC \<Rightarrow> 'a list \<Rightarrow> 'a large_vec \<Rightarrow> 'a large_vec option" where
  "vec_assign al xs v =
     (case vec_reallocate al (length xs) v of
        None \<Rightarrow> None
      | Some v' \<Rightarrow> Some (v'\<lparr>elems := xs\<rparr>))"

text \<open>
  \<open>v.resize(n)\<close>: a shorter length drops the tail and never allocates; a longer one
  appends copies of \<open>T()\<close>, and has no effect when the allocation throws.
\<close>

definition vec_resize :: "ALLOC \<Rightarrow> 'a \<Rightarrow> nat \<Rightarrow> 'a large_vec \<Rightarrow> 'a large_vec option" where
  "vec_resize al d n v =
     (if n \<le> length (elems v) then Some (v\<lparr>elems := take n (elems v)\<rparr>)
      else (case vec_reallocate al n v of
              None \<Rightarrow> None
            | Some v' \<Rightarrow> Some (v'\<lparr>elems := elems v @ replicate (n - length (elems v)) d\<rparr>)))"

text \<open>
  \<open>std::copy(src.begin(), src.begin() + cnt, dst.begin())\<close>: the first \<open>cnt\<close> slots of
  \<open>dst\<close> are overwritten. A range that leaves either buffer is undefined behaviour,
  the value \<open>None\<close>.
\<close>

definition std_copy :: "'a list \<Rightarrow> nat \<Rightarrow> 'a list \<Rightarrow> 'a list option" where
  "std_copy src cnt dst =
     (if cnt \<le> length src \<and> cnt \<le> length dst then Some (take cnt src @ drop cnt dst)
      else None)"

subsection \<open>The container\<close>

record 'a vector =
  m_v :: "'a large_vec"
  m_a :: "'a list"
  m_is_small :: bool
  m_size :: nat

text \<open>
  A new container: \<open>m_is_small = true\<close>, \<open>m_size = 0\<close>, an empty \<open>m_v\<close>. The array
  \<open>m_a\<close> is default-initialised, so its \<open>small_size\<close> slots hold whatever \<open>a0\<close> says.
\<close>

definition vector_init :: "'a list \<Rightarrow> 'a vector" where
  "vector_init a0 =
     \<lparr>m_v = \<lparr>elems = [], capacity = 0\<rparr>, m_a = a0, m_is_small = True, m_size = 0\<rparr>"

text \<open>
  How a call ends: it returns, leaving the state given; or an exception leaves it,
  the object staying as it was when the exception was thrown; or it runs into
  undefined behaviour.
\<close>

datatype 'a outcome = Returns 'a | Throws 'a | Undefined

text \<open>The block \<open>if (m_size) { ... }\<close> of \<open>resize\<close>: the migration between the storages.\<close>

definition resize_migrate :: "ALLOC \<Rightarrow> nat \<Rightarrow> nat \<Rightarrow> 'a vector \<Rightarrow> 'a vector outcome" where
  "resize_migrate al K n s =
     (if m_size s \<noteq> 0 then
        (if m_is_small s \<and> n > K then
           (if m_size s \<le> length (m_a s) then
              (case vec_assign al (take (m_size s) (m_a s)) (m_v s) of
                 None \<Rightarrow> Throws s
               | Some v \<Rightarrow> Returns (s\<lparr>m_v := v\<rparr>))
            else Undefined)
         else if \<not> m_is_small s \<and> n \<le> K then
           (case std_copy (elems (m_v s)) n (m_a s) of
              None \<Rightarrow> Undefined
            | Some a \<Rightarrow> Returns (s\<lparr>m_a := a\<rparr>))
         else Returns s)
      else Returns s)"

text \<open>The rest of \<open>resize\<close>: the two fields are written, then \<open>m_v\<close> is resized.\<close>

definition resize_commit :: "ALLOC \<Rightarrow> nat \<Rightarrow> 'a \<Rightarrow> nat \<Rightarrow> 'a vector \<Rightarrow> 'a vector outcome" where
  "resize_commit al K d n s =
     (let s' = s\<lparr>m_size := n, m_is_small := (n \<le> K)\<rparr>
      in if \<not> m_is_small s' then
           (case vec_resize al d (m_size s') (m_v s') of
              None \<Rightarrow> Throws s'
            | Some v \<Rightarrow> Returns (s'\<lparr>m_v := v\<rparr>))
         else Returns s')"

definition resize :: "ALLOC \<Rightarrow> nat \<Rightarrow> 'a \<Rightarrow> nat \<Rightarrow> 'a vector \<Rightarrow> 'a vector outcome" where
  "resize al K d n s =
     (case resize_migrate al K n s of
        Returns s1 \<Rightarrow> resize_commit al K d n s1
      | Throws s1 \<Rightarrow> Throws s1
      | Undefined \<Rightarrow> Undefined)"

definition size_v :: "'a vector \<Rightarrow> nat" where
  "size_v s = m_size s"

text \<open>
  \<open>operator[](n)\<close> as a read: the slot \<open>n\<close> of the storage the flag selects. An index
  outside that storage is undefined behaviour, the value \<open>None\<close>.
\<close>

definition operator_index :: "'a vector \<Rightarrow> nat \<Rightarrow> 'a option" where
  "operator_index s n =
     (if m_is_small s then (if n < length (m_a s) then Some (m_a s ! n) else None)
      else (if n < length (elems (m_v s)) then Some (elems (m_v s) ! n) else None))"

text \<open>\<open>operator[](n) = x\<close>: an assignment through the reference \<open>operator[]\<close> returns.\<close>

definition operator_index_assign :: "'a vector \<Rightarrow> nat \<Rightarrow> 'a \<Rightarrow> 'a vector option" where
  "operator_index_assign s n x =
     (if m_is_small s then
        (if n < length (m_a s) then Some (s\<lparr>m_a := (m_a s)[n := x]\<rparr>) else None)
      else
        (if n < length (elems (m_v s))
         then Some (s\<lparr>m_v := (m_v s)\<lparr>elems := (elems (m_v s))[n := x]\<rparr>\<rparr>) else None))"

text \<open>
  \<open>this->swap(x)\<close>: the pair of the two containers after the call, \<open>this\<close> first.
\<close>

definition swap_storage :: "'a vector \<Rightarrow> 'a vector \<Rightarrow> ('a vector \<times> 'a vector) option" where
  "swap_storage s x =
     (if m_is_small s \<and> m_is_small x then
        Some (s\<lparr>m_a := m_a x\<rparr>, x\<lparr>m_a := m_a s\<rparr>)
      else if \<not> m_is_small s \<and> \<not> m_is_small x then
        Some (s\<lparr>m_v := m_v x\<rparr>, x\<lparr>m_v := m_v s\<rparr>)
      else if \<not> m_is_small s \<and> m_is_small x then
        (case std_copy (m_a x) (m_size x) (m_a s) of
           None \<Rightarrow> None
         | Some a \<Rightarrow> Some (s\<lparr>m_a := a, m_v := m_v x\<rparr>, x\<lparr>m_v := m_v s\<rparr>))
      else
        (case std_copy (m_a s) (m_size s) (m_a x) of
           None \<Rightarrow> None
         | Some a \<Rightarrow> Some (s\<lparr>m_v := m_v x\<rparr>, x\<lparr>m_v := m_v s, m_a := a\<rparr>)))"

definition swap_v :: "'a vector \<Rightarrow> 'a vector \<Rightarrow> ('a vector \<times> 'a vector) option" where
  "swap_v s x =
     (case swap_storage s x of
        None \<Rightarrow> None
      | Some (s', x') \<Rightarrow>
          Some (s'\<lparr>m_size := m_size x, m_is_small := m_is_small x\<rparr>,
                x'\<lparr>m_size := m_size s, m_is_small := m_is_small s\<rparr>))"

subsection \<open>The iterator\<close>

text \<open>
  \<open>iteratorImpl\<close> wraps the raw address \<open>m_ptr\<close>. An address is the buffer it points
  into, \<open>m_a.data()\<close> or \<open>m_v.data()\<close>, and the offset from its first element, counted
  in elements.
\<close>

datatype base = m_a_data | m_v_data

type_synonym pointer = "base \<times> int"

record iteratorImpl =
  m_ptr :: pointer

definition ptr_add :: "pointer \<Rightarrow> int \<Rightarrow> pointer" where
  "ptr_add p n = (fst p, snd p + n)"

text \<open>
  The four one-step operators. Each changes \<open>*this\<close> and returns an iterator by value:
  the result is the pair of the value returned and of \<open>*this\<close> after the call.
\<close>

definition operator_inc :: "iteratorImpl \<Rightarrow> iteratorImpl \<times> iteratorImpl" where
  "operator_inc this = (let i = this in (i, this\<lparr>m_ptr := ptr_add (m_ptr this) 1\<rparr>))"

definition operator_dec :: "iteratorImpl \<Rightarrow> iteratorImpl \<times> iteratorImpl" where
  "operator_dec this = (let i = this in (i, this\<lparr>m_ptr := ptr_add (m_ptr this) (- 1)\<rparr>))"

definition operator_inc_int :: "iteratorImpl \<Rightarrow> iteratorImpl \<times> iteratorImpl" where
  "operator_inc_int this =
     (let this' = this\<lparr>m_ptr := ptr_add (m_ptr this) 1\<rparr> in (this', this'))"

definition operator_dec_int :: "iteratorImpl \<Rightarrow> iteratorImpl \<times> iteratorImpl" where
  "operator_dec_int this =
     (let this' = this\<lparr>m_ptr := ptr_add (m_ptr this) (- 1)\<rparr> in (this', this'))"

definition operator_eq :: "iteratorImpl \<Rightarrow> iteratorImpl \<Rightarrow> bool" where
  "operator_eq this o' = (m_ptr this = m_ptr o')"

definition operator_neq :: "iteratorImpl \<Rightarrow> iteratorImpl \<Rightarrow> bool" where
  "operator_neq this o' = (m_ptr this \<noteq> m_ptr o')"

definition begin_v :: "'a vector \<Rightarrow> iteratorImpl" where
  "begin_v s = \<lparr>m_ptr = (if m_is_small s then (m_a_data, 0) else (m_v_data, 0))\<rparr>"

definition end_v :: "'a vector \<Rightarrow> iteratorImpl" where
  "end_v s =
     \<lparr>m_ptr = (if m_is_small s then ptr_add (m_a_data, 0) (int (m_size s))
               else ptr_add (m_v_data, 0) (int (m_size s)))\<rparr>"

text \<open>
  \<open>operator*\<close> reads the element at the address, in the container the iterator came
  from. An address outside the elements of its buffer is undefined behaviour.
\<close>

definition buffer :: "'a vector \<Rightarrow> base \<Rightarrow> 'a list" where
  "buffer s b = (case b of m_a_data \<Rightarrow> m_a s | m_v_data \<Rightarrow> elems (m_v s))"

definition operator_deref :: "'a vector \<Rightarrow> iteratorImpl \<Rightarrow> 'a option" where
  "operator_deref s this =
     (let b = fst (m_ptr this); i = snd (m_ptr this)
      in if 0 \<le> i \<and> i < int (length (buffer s b)) then Some (buffer s b ! nat i) else None)"

text \<open>
  The traversal \<open>for (it = first; it != fin; it++) out.push_back(*it);\<close> of the
  container \<open>s\<close>. It ends: every step reads the element under the iterator, which is
  undefined once the iterator has left the buffer.
\<close>

function traverse :: "'a vector \<Rightarrow> iteratorImpl \<Rightarrow> iteratorImpl \<Rightarrow> 'a list option" where
  "traverse s it fin =
     (if operator_neq it fin then
        (case operator_deref s it of
           None \<Rightarrow> None
         | Some x \<Rightarrow>
             (case traverse s (snd (operator_inc_int it)) fin of
                None \<Rightarrow> None
              | Some xs \<Rightarrow> Some (x # xs)))
      else Some [])"
  by pat_completeness auto
termination
proof (relation "measure (\<lambda>(s, it, fin).
         nat (int (length (buffer s (fst (m_ptr it)))) - snd (m_ptr it)))")
  show "wf (measure (\<lambda>(s :: 'a vector, it, fin :: iteratorImpl).
         nat (int (length (buffer s (fst (m_ptr it)))) - snd (m_ptr it))))"
    by simp
next
  fix s :: "'a vector" and it fin :: iteratorImpl and x :: 'a
  assume "operator_neq it fin" and "operator_deref s it = Some x"
  then show "((s, snd (operator_inc_int it), fin), (s, it, fin))
       \<in> measure (\<lambda>(s, it, fin).
           nat (int (length (buffer s (fst (m_ptr it)))) - snd (m_ptr it)))"
    by (auto simp: operator_deref_def operator_inc_int_def ptr_add_def Let_def
             split: if_splits)
qed

subsection \<open>The representation invariant\<close>

text \<open>
  What every container built through the public interface satisfies: the array has
  \<open>small_size\<close> slots, the flag says whether the size fits the array, and in the large
  mode the vector's own length is the size.
\<close>

definition mode_inv :: "nat \<Rightarrow> 'a vector \<Rightarrow> bool" where
  "mode_inv K s = (m_is_small s = (m_size s \<le> K))"

definition valid :: "nat \<Rightarrow> 'a vector \<Rightarrow> bool" where
  "valid K s =
     (length (m_a s) = K \<and> mode_inv K s
      \<and> (m_is_small s \<or> length (elems (m_v s)) = m_size s)
      \<and> length (elems (m_v s)) \<le> capacity (m_v s))"

text \<open>
  The containers a program can hold, as long as every call it made returned: a new
  container, and what \<open>resize\<close>, an assignment through \<open>operator[]\<close> and \<open>swap\<close>
  make of such containers. (What a \<open>resize\<close> that threw leaves behind is the subject
  of the section on allocation failure.)
\<close>

inductive reachable :: "nat \<Rightarrow> 'a vector \<Rightarrow> bool" for K :: nat where
  reachable_init: "length a0 = K \<Longrightarrow> reachable K (vector_init a0)"
| reachable_resize:
    "reachable K s \<Longrightarrow> resize al K d n s = Returns s' \<Longrightarrow> reachable K s'"
| reachable_assign:
    "reachable K s \<Longrightarrow> operator_index_assign s i x = Some s' \<Longrightarrow> reachable K s'"
| reachable_swap_this:
    "reachable K s \<Longrightarrow> reachable K x \<Longrightarrow> swap_v s x = Some (s', x') \<Longrightarrow> reachable K s'"
| reachable_swap_other:
    "reachable K s \<Longrightarrow> reachable K x \<Longrightarrow> swap_v s x = Some (s', x') \<Longrightarrow> reachable K x'"

subsection \<open>Calling sequences and reference behaviour\<close>

text \<open>
  \<open>resize(n)\<close> called \<open>k\<close> times in a row, nothing else touching the container. A
  call that throws or is undefined ends the sequence.
\<close>

primrec resize_times :: "nat \<Rightarrow> ALLOC \<Rightarrow> nat \<Rightarrow> 'a \<Rightarrow> nat \<Rightarrow> 'a vector \<Rightarrow> 'a vector outcome" where
  "resize_times 0 al K d n s = Returns s"
| "resize_times (Suc k) al K d n s =
     (case resize al K d n s of
        Returns s' \<Rightarrow> resize_times k al K d n s'
      | Throws s' \<Rightarrow> Throws s'
      | Undefined \<Rightarrow> Undefined)"

text \<open>
  The conventional contract of the one-step operators, for comparison with the four
  operators of \<open>iteratorImpl\<close>: a prefix operator returns the iterator at its new
  position, a postfix operator returns a snapshot of the position before the step.
  Both leave \<open>*this\<close> at the new position.
\<close>

definition conventional_prefix :: "int \<Rightarrow> iteratorImpl \<Rightarrow> iteratorImpl \<times> iteratorImpl" where
  "conventional_prefix step this =
     (this\<lparr>m_ptr := ptr_add (m_ptr this) step\<rparr>, this\<lparr>m_ptr := ptr_add (m_ptr this) step\<rparr>)"

definition conventional_postfix :: "int \<Rightarrow> iteratorImpl \<Rightarrow> iteratorImpl \<times> iteratorImpl" where
  "conventional_postfix step this = (this, this\<lparr>m_ptr := ptr_add (m_ptr this) step\<rparr>)"

subsection \<open>Example containers and allocators\<close>

text \<open>
  \<open>alloc_exact\<close> always succeeds, with a block of just the size needed;
  \<open>alloc_upto m\<close> has room for blocks of at most \<open>m\<close> elements, so \<open>alloc_upto 0\<close>
  has no memory left.
\<close>

definition alloc_exact :: ALLOC where
  "alloc_exact cap need = Some need"

definition alloc_upto :: "nat \<Rightarrow> ALLOC" where
  "alloc_upto m cap need = (if need \<le> m then Some need else None)"

text \<open>
  With \<open>small_size = 4\<close> and elements of type \<open>nat\<close>, whose \<open>T()\<close> is \<open>0\<close>: \<open>ex_X\<close>
  is a small container holding \<open>[11, 12]\<close>, \<open>ex_W\<close> the same with \<open>13, 14\<close> left
  in the two slots of the array beyond its size, \<open>ex_Y\<close> a large one holding
  \<open>20, ..., 29\<close>, \<open>ex_filled\<close> a large one holding \<open>[7, 0, 0, 0, 0, 0]\<close>, and
  \<open>ex_abandoned\<close> is \<open>ex_filled\<close> after \<open>resize(0)\<close>: small and empty, its vector
  still holding the six elements.
\<close>

definition ex_X :: "nat vector" where
  "ex_X = \<lparr>m_v = \<lparr>elems = [], capacity = 0\<rparr>, m_a = [11, 12, 0, 0],
           m_is_small = True, m_size = 2\<rparr>"

definition ex_Y :: "nat vector" where
  "ex_Y = \<lparr>m_v = \<lparr>elems = [20, 21, 22, 23, 24, 25, 26, 27, 28, 29], capacity = 10\<rparr>,
           m_a = [0, 0, 0, 0], m_is_small = False, m_size = 10\<rparr>"

definition ex_W :: "nat vector" where
  "ex_W = \<lparr>m_v = \<lparr>elems = [], capacity = 0\<rparr>, m_a = [11, 12, 13, 14],
           m_is_small = True, m_size = 2\<rparr>"

definition ex_filled :: "nat vector" where
  "ex_filled = \<lparr>m_v = \<lparr>elems = [7, 0, 0, 0, 0, 0], capacity = 6\<rparr>,
           m_a = [0, 0, 0, 0], m_is_small = False, m_size = 6\<rparr>"

definition ex_abandoned :: "nat vector" where
  "ex_abandoned = \<lparr>m_v = \<lparr>elems = [7, 0, 0, 0, 0, 0], capacity = 6\<rparr>,
           m_a = [0, 0, 0, 0], m_is_small = True, m_size = 0\<rparr>"

section \<open>Properties\<close>

declare traverse.simps [simp del]

subsection \<open>The vector operations\<close>

lemma vec_reallocate_never_fails:
  "never_fails al \<Longrightarrow> \<exists>v'. vec_reallocate al need v = Some v'"
proof -
  assume "never_fails al"
  then obtain c where "al (capacity v) need = Some c"
    unfolding never_fails_def by blast
  then show ?thesis
    by (simp add: vec_reallocate_def)
qed

lemma vec_reallocate_elems:
  "vec_reallocate al need v = Some v' \<Longrightarrow> elems v' = elems v \<and> need \<le> capacity v' \<and> capacity v \<le> capacity v'"
  by (auto simp: vec_reallocate_def split: option.splits if_splits)

lemma vec_assign_Some:
  "vec_assign al xs v = Some v' \<Longrightarrow> elems v' = xs \<and> length xs \<le> capacity v'"
  by (auto simp: vec_assign_def split: option.splits dest: vec_reallocate_elems)

lemma vec_resize_Some:
  "vec_resize al d n v = Some v' \<Longrightarrow>
     elems v' = take n (elems v) @ replicate (n - length (elems v)) d"
  by (auto simp: vec_resize_def split: option.splits if_splits dest: vec_reallocate_elems)

lemma vec_resize_capacity:
  "vec_resize al d n v = Some v' \<Longrightarrow> length (elems v) \<le> capacity v \<Longrightarrow>
     length (elems v') \<le> capacity v'"
  by (auto simp: vec_resize_def split: option.splits if_splits dest: vec_reallocate_elems)

lemma vec_resize_length:
  "vec_resize al d n v = Some v' \<Longrightarrow> length (elems v') = n"
  by (auto simp: vec_resize_def split: option.splits if_splits dest: vec_reallocate_elems)

lemma vec_resize_same:
  "length (elems v) = n \<Longrightarrow> vec_resize al d n v = Some v"
  by (simp add: vec_resize_def)

lemma resize_Returns_fields:
  "resize al K d n s = Returns s' \<Longrightarrow> m_size s' = n \<and> m_is_small s' = (n \<le> K)"
  by (auto simp: resize_def resize_commit_def Let_def split: outcome.splits option.splits if_splits)

lemma resize_Returns_length:
  "resize al K d n s = Returns s' \<Longrightarrow> \<not> n \<le> K \<Longrightarrow> length (elems (m_v s')) = n"
  by (auto simp: resize_def resize_commit_def Let_def split: outcome.splits option.splits if_splits
      dest!: vec_resize_Some)

lemma resize_migrate_defined:
  "valid K s \<Longrightarrow> resize_migrate al K n s \<noteq> Undefined"
  by (auto simp: resize_migrate_def valid_def mode_inv_def std_copy_def split: option.splits)

lemma resize_defined:
  "valid K s \<Longrightarrow> resize al K d n s \<noteq> Undefined"
  using resize_migrate_defined [of K s al n]
  by (auto simp: resize_def resize_commit_def Let_def split: outcome.splits option.splits)

lemma vec_assign_never_fails:
  "never_fails al \<Longrightarrow> \<exists>v'. vec_assign al xs v = Some v'"
  using vec_reallocate_never_fails [of al "length xs" v]
  by (auto simp: vec_assign_def)

lemma vec_resize_never_fails:
  "never_fails al \<Longrightarrow> \<exists>v'. vec_resize al d n v = Some v'"
  using vec_reallocate_never_fails [of al n v]
  by (auto simp: vec_resize_def)

lemma resize_migrate_returns:
  "valid K s \<Longrightarrow> never_fails al \<Longrightarrow> \<exists>s'. resize_migrate al K n s = Returns s'"
  using vec_assign_never_fails [of al "take (m_size s) (m_a s)" "m_v s"]
  by (auto simp: resize_migrate_def valid_def mode_inv_def std_copy_def split: option.splits)

lemma resize_commit_returns:
  "never_fails al \<Longrightarrow> \<exists>s'. resize_commit al K d n s = Returns s'"
  using vec_resize_never_fails [of al d n "m_v s"]
  by (auto simp: resize_commit_def Let_def split: option.splits)

lemma resize_returns:
  "valid K s \<Longrightarrow> never_fails al \<Longrightarrow> \<exists>s'. resize al K d n s = Returns s'"
  using resize_migrate_returns [of K s al n] resize_commit_returns [of al K d n]
  by (auto simp: resize_def)

lemma resize_migrate_valid:
  "valid K s \<Longrightarrow> resize_migrate al K n s = Returns s1 \<Longrightarrow>
     length (m_a s1) = K \<and> length (elems (m_v s1)) \<le> capacity (m_v s1)"
  by (auto simp: resize_migrate_def valid_def mode_inv_def std_copy_def
      split: option.splits if_splits dest!: vec_assign_Some)

lemma resize_commit_valid:
  "length (m_a s1) = K \<Longrightarrow> length (elems (m_v s1)) \<le> capacity (m_v s1) \<Longrightarrow>
   resize_commit al K d n s1 = Returns s' \<Longrightarrow> valid K s'"
  by (auto simp: resize_commit_def valid_def mode_inv_def Let_def
      split: option.splits if_splits dest: vec_resize_capacity vec_resize_length)

lemma resize_valid:
  "valid K s \<Longrightarrow> resize al K d n s = Returns s' \<Longrightarrow> valid K s'"
  using resize_migrate_valid [of K s al n] resize_commit_valid [of _ K al d n s']
  by (auto simp: resize_def split: outcome.splits)

subsection \<open>Size and mode after \<open>resize\<close>\<close>

lemma never_fails_alloc_exact: "never_fails alloc_exact"
  by (simp add: never_fails_def alloc_exact_def)

text \<open>
  Claim C6. For every container and every \<open>n\<close>, immediately after \<open>resize(n)\<close> the
  call \<open>size()\<close> returns \<open>n\<close> and the mode is small exactly when \<open>n \<le> K\<close>. On a
  container that satisfies the representation invariant the call is never undefined,
  and it returns whenever the allocator does not fail.
\<close>

theorem resize_size_and_mode:
  assumes "valid K s"
  shows "resize al K d n s \<noteq> Undefined
       \<and> (never_fails al \<longrightarrow> (\<exists>s'. resize al K d n s = Returns s'))
       \<and> (\<forall>s'. resize al K d n s = Returns s' \<longrightarrow>
             size_v s' = n \<and> (m_is_small s' \<longleftrightarrow> n \<le> K))"
  using assms resize_defined [of K s al d n] resize_returns [of K s al d n]
    resize_Returns_fields [of al K d n s]
  by (simp add: size_v_def)

theorem resize_size_and_mode_witness:
  "valid 4 (vector_init [0, 0, 0, 0 :: nat])
   \<and> resize alloc_exact 4 0 6 (vector_init [0, 0, 0, 0 :: nat]) =
       Returns \<lparr>m_v = \<lparr>elems = [0, 0, 0, 0, 0, 0], capacity = 6\<rparr>, m_a = [0, 0, 0, 0],
                 m_is_small = False, m_size = 6\<rparr>
   \<and> size_v \<lparr>m_v = \<lparr>elems = [0, 0, 0, 0, 0, 0 :: nat], capacity = 6\<rparr>, m_a = [0, 0, 0, 0],
                 m_is_small = False, m_size = 6\<rparr> = 6
   \<and> \<not> m_is_small \<lparr>m_v = \<lparr>elems = [0, 0, 0, 0, 0, 0 :: nat], capacity = 6\<rparr>, m_a = [0, 0, 0, 0],
                 m_is_small = False, m_size = 6\<rparr>"
proof -
  let ?s0 = "vector_init [0, 0, 0, 0 :: nat]"
  let ?s1 = "\<lparr>m_v = \<lparr>elems = [0, 0, 0, 0, 0, 0 :: nat], capacity = 6\<rparr>, m_a = [0, 0, 0, 0],
                 m_is_small = False, m_size = 6\<rparr>"
  have v: "valid 4 ?s0"
    by code_simp
  have r: "resize alloc_exact 4 0 6 ?s0 = Returns ?s1"
    by code_simp
  have "size_v ?s1 = 6 \<and> (m_is_small ?s1 \<longleftrightarrow> (6 :: nat) \<le> 4)"
    using resize_size_and_mode [OF v, of alloc_exact 0 6] r by blast
  then show ?thesis
    using v r by simp
qed

subsection \<open>Repeating \<open>resize\<close>\<close>

lemma resize_fixed_point:
  "resize al K d n s = Returns s' \<Longrightarrow> resize al' K d' n s' = Returns s'"
proof -
  assume r: "resize al K d n s = Returns s'"
  have f: "m_size s' = n" "m_is_small s' = (n \<le> K)"
    using resize_Returns_fields [OF r] by simp_all
  have m: "resize_migrate al' K n s' = Returns s'"
    using f by (auto simp: resize_migrate_def)
  have eq: "s'\<lparr>m_size := n, m_is_small := (n \<le> K)\<rparr> = s'"
    using f by simp
  have l: "\<not> n \<le> K \<Longrightarrow> vec_resize al' d' (m_size s') (m_v s') = Some (m_v s')"
    using resize_Returns_length [OF r] f by (simp add: vec_resize_same)
  have c: "resize_commit al' K d' n s' = Returns s'"
    unfolding resize_commit_def Let_def eq using f l by auto
  show ?thesis
    by (simp add: resize_def m c)
qed

text \<open>
  Claim C8. \<open>resize\<close> is idempotent: once \<open>resize(n)\<close> has returned, calling it again
  with the same \<open>n\<close>, any number of times and with nothing in between, returns and
  leaves the whole container, hence \<open>size()\<close>, the mode and every element, as the
  first call left it.
\<close>

theorem resize_idempotent:
  assumes "resize al K d n s = Returns s'"
  shows "resize_times k al K d n s' = Returns s'"
  using resize_fixed_point [OF assms, of al d]
  by (induction k) simp_all

theorem resize_idempotent_witness:
  "resize alloc_exact 4 0 6 (vector_init [0, 0, 0, 0 :: nat]) =
       Returns \<lparr>m_v = \<lparr>elems = [0, 0, 0, 0, 0, 0], capacity = 6\<rparr>, m_a = [0, 0, 0, 0],
                 m_is_small = False, m_size = 6\<rparr>
   \<and> resize_times 3 alloc_exact 4 0 6
         \<lparr>m_v = \<lparr>elems = [0, 0, 0, 0, 0, 0 :: nat], capacity = 6\<rparr>, m_a = [0, 0, 0, 0],
                 m_is_small = False, m_size = 6\<rparr> =
       Returns \<lparr>m_v = \<lparr>elems = [0, 0, 0, 0, 0, 0], capacity = 6\<rparr>, m_a = [0, 0, 0, 0],
                 m_is_small = False, m_size = 6\<rparr>"
proof -
  have r: "resize alloc_exact 4 0 6 (vector_init [0, 0, 0, 0 :: nat]) =
       Returns \<lparr>m_v = \<lparr>elems = [0, 0, 0, 0, 0, 0], capacity = 6\<rparr>, m_a = [0, 0, 0, 0],
                 m_is_small = False, m_size = 6\<rparr>"
    by code_simp
  show ?thesis
    using r resize_idempotent [OF r, of 3] by simp
qed

subsection \<open>The one-step operators of the iterator\<close>

text \<open>
  Claim C9. The postfix operators \<open>operator++(int)\<close> and \<open>operator--(int)\<close> first
  move the address and then return the iterator at its new position: the value
  returned is \<open>*this\<close> after the step, and it differs from the iterator before the
  step.
\<close>

theorem postfix_returns_new_position:
  "fst (operator_inc_int it) = snd (operator_inc_int it)
   \<and> m_ptr (snd (operator_inc_int it)) = ptr_add (m_ptr it) 1
   \<and> fst (operator_inc_int it) \<noteq> it
   \<and> fst (operator_dec_int it) = snd (operator_dec_int it)
   \<and> m_ptr (snd (operator_dec_int it)) = ptr_add (m_ptr it) (- 1)
   \<and> fst (operator_dec_int it) \<noteq> it"
proof -
  have "ptr_add (m_ptr it) 1 \<noteq> m_ptr it" "ptr_add (m_ptr it) (- 1) \<noteq> m_ptr it"
    by (cases "m_ptr it"; simp add: ptr_add_def)+
  then have "it\<lparr>m_ptr := ptr_add (m_ptr it) 1\<rparr> \<noteq> it" "it\<lparr>m_ptr := ptr_add (m_ptr it) (- 1)\<rparr> \<noteq> it"
    by (cases it; simp)+
  then show ?thesis
    by (simp add: operator_inc_int_def operator_dec_int_def Let_def)
qed

text \<open>
  Claim C10. The prefix operators \<open>operator++()\<close> and \<open>operator--()\<close> move the
  address but return a copy of the iterator at its old position. The conventional
  roles are exactly swapped: the prefix operators of \<open>iteratorImpl\<close> are the
  conventional postfix ones, and its postfix operators are the conventional prefix
  ones.
\<close>

theorem prefix_returns_old_position:
  "fst (operator_inc it) = it
   \<and> m_ptr (snd (operator_inc it)) = ptr_add (m_ptr it) 1
   \<and> fst (operator_dec it) = it
   \<and> m_ptr (snd (operator_dec it)) = ptr_add (m_ptr it) (- 1)
   \<and> operator_inc it = conventional_postfix 1 it
   \<and> operator_dec it = conventional_postfix (- 1) it
   \<and> operator_inc_int it = conventional_prefix 1 it
   \<and> operator_dec_int it = conventional_prefix (- 1) it"
  by (simp add: operator_inc_def operator_dec_def operator_inc_int_def operator_dec_int_def
      conventional_postfix_def conventional_prefix_def Let_def)

subsection \<open>\<open>swap\<close>\<close>

lemma std_copy_Some:
  "std_copy src cnt dst = Some a \<Longrightarrow>
     cnt \<le> length src \<and> cnt \<le> length dst \<and> a = take cnt src @ drop cnt dst"
  by (simp add: std_copy_def split: if_splits)

lemma std_copy_length:
  "std_copy src cnt dst = Some a \<Longrightarrow> length a = length dst"
  by (auto dest!: std_copy_Some)

lemma std_copy_nth:
  "std_copy src cnt dst = Some a \<Longrightarrow> i < cnt \<Longrightarrow> a ! i = src ! i"
  by (auto dest!: std_copy_Some simp: nth_append)

lemma swap_storage_defined:
  "valid K s \<Longrightarrow> valid K x \<Longrightarrow> \<exists>p. swap_storage s x = Some p"
  by (auto simp: swap_storage_def valid_def mode_inv_def std_copy_def)

lemma swap_v_defined:
  "valid K s \<Longrightarrow> valid K x \<Longrightarrow> \<exists>s' x'. swap_v s x = Some (s', x')"
  using swap_storage_defined [of K s x]
  by (auto simp: swap_v_def)

lemma swap_v_fields:
  "swap_v s x = Some (s', x') \<Longrightarrow>
     m_size s' = m_size x \<and> m_is_small s' = m_is_small x
     \<and> m_size x' = m_size s \<and> m_is_small x' = m_is_small s"
  by (auto simp: swap_v_def split: option.splits)

lemma swap_v_valid:
  "valid K s \<Longrightarrow> valid K x \<Longrightarrow> swap_v s x = Some (s', x') \<Longrightarrow> valid K s' \<and> valid K x'"
  by (auto simp: swap_v_def swap_storage_def valid_def mode_inv_def
      split: option.splits if_splits dest: std_copy_length)

lemma swap_v_elements_this:
  "valid K s \<Longrightarrow> valid K x \<Longrightarrow> swap_v s x = Some (s', x') \<Longrightarrow> i < m_size x \<Longrightarrow>
     operator_index s' i = operator_index x i \<and> operator_index x i \<noteq> None"
  by (auto simp: swap_v_def swap_storage_def valid_def mode_inv_def operator_index_def
      split: option.splits if_splits dest: std_copy_length std_copy_nth)

lemma swap_v_elements_other:
  "valid K s \<Longrightarrow> valid K x \<Longrightarrow> swap_v s x = Some (s', x') \<Longrightarrow> i < m_size s \<Longrightarrow>
     operator_index x' i = operator_index s i \<and> operator_index s i \<noteq> None"
  by (auto simp: swap_v_def swap_storage_def valid_def mode_inv_def operator_index_def
      split: option.splits if_splits dest: std_copy_length std_copy_nth)

text \<open>
  Claim C4. \<open>swap\<close> exchanges the complete observable state of two containers, in
  all four pairings of the modes: the call is defined, and afterwards each container
  has the size and the mode the other had, and at every index below that size the
  element the other had there. The container \<open>X\<close>, small with the two values
  \<open>[p, q]\<close>, swapped with \<open>Y\<close>, large with the ten values \<open>v0..v9\<close>, is the
  instance checked after the theorem.
\<close>

theorem swap_exchanges_state:
  assumes "valid K s" and "valid K x"
  shows "\<exists>s' x'. swap_v s x = Some (s', x')
           \<and> size_v s' = size_v x \<and> m_is_small s' = m_is_small x
           \<and> (\<forall>i<size_v x. operator_index s' i = operator_index x i \<and> operator_index x i \<noteq> None)
           \<and> size_v x' = size_v s \<and> m_is_small x' = m_is_small s
           \<and> (\<forall>i<size_v s. operator_index x' i = operator_index s i \<and> operator_index s i \<noteq> None)"
proof -
  obtain s' x' where sw: "swap_v s x = Some (s', x')"
    using swap_v_defined [OF assms] by blast
  show ?thesis
    using sw swap_v_fields [OF sw] swap_v_elements_this [OF assms sw]
      swap_v_elements_other [OF assms sw]
    by (simp add: size_v_def)
qed

theorem swap_exchanges_state_witness:
  "valid 4 ex_X \<and> valid 4 ex_Y \<and> valid 4 ex_abandoned \<and> valid 4 ex_filled
   \<and> (\<exists>s' x'. swap_v ex_X ex_Y = Some (s', x')
         \<and> size_v s' = 10 \<and> \<not> m_is_small s'
         \<and> operator_index s' 0 = Some 20 \<and> operator_index s' 9 = Some 29
         \<and> size_v x' = 2 \<and> m_is_small x'
         \<and> operator_index x' 0 = Some 11 \<and> operator_index x' 1 = Some 12)
   \<and> (\<exists>s' x'. swap_v ex_Y ex_X = Some (s', x')
         \<and> size_v s' = 2 \<and> m_is_small s'
         \<and> operator_index s' 0 = Some 11 \<and> operator_index s' 1 = Some 12
         \<and> size_v x' = 10 \<and> \<not> m_is_small x'
         \<and> operator_index x' 0 = Some 20 \<and> operator_index x' 9 = Some 29)
   \<and> (\<exists>s' x'. swap_v ex_X ex_abandoned = Some (s', x')
         \<and> size_v s' = 0 \<and> m_is_small s'
         \<and> size_v x' = 2 \<and> m_is_small x'
         \<and> operator_index x' 0 = Some 11 \<and> operator_index x' 1 = Some 12)
   \<and> (\<exists>s' x'. swap_v ex_Y ex_filled = Some (s', x')
         \<and> size_v s' = 6 \<and> \<not> m_is_small s'
         \<and> operator_index s' 0 = Some 7 \<and> operator_index s' 5 = Some 0
         \<and> size_v x' = 10 \<and> \<not> m_is_small x'
         \<and> operator_index x' 0 = Some 20 \<and> operator_index x' 9 = Some 29)"
proof -
  have vX: "valid 4 ex_X" and vY: "valid 4 ex_Y"
    and vA: "valid 4 ex_abandoned" and vF: "valid 4 ex_filled"
    by code_simp+
  have X: "size_v ex_X = 2" "m_is_small ex_X"
    "operator_index ex_X 0 = Some 11" "operator_index ex_X 1 = Some 12"
    by code_simp+
  have Y: "size_v ex_Y = 10" "\<not> m_is_small ex_Y"
    "operator_index ex_Y 0 = Some 20" "operator_index ex_Y 9 = Some 29"
    by code_simp+
  have A: "size_v ex_abandoned = 0" "m_is_small ex_abandoned"
    by code_simp+
  have F: "size_v ex_filled = 6" "\<not> m_is_small ex_filled"
    "operator_index ex_filled 0 = Some 7" "operator_index ex_filled 5 = Some 0"
    by code_simp+
  have 1: "\<exists>s' x'. swap_v ex_X ex_Y = Some (s', x')
         \<and> size_v s' = 10 \<and> \<not> m_is_small s'
         \<and> operator_index s' 0 = Some 20 \<and> operator_index s' 9 = Some 29
         \<and> size_v x' = 2 \<and> m_is_small x'
         \<and> operator_index x' 0 = Some 11 \<and> operator_index x' 1 = Some 12"
    using swap_exchanges_state [OF vX vY] X Y by auto
  have 2: "\<exists>s' x'. swap_v ex_Y ex_X = Some (s', x')
         \<and> size_v s' = 2 \<and> m_is_small s'
         \<and> operator_index s' 0 = Some 11 \<and> operator_index s' 1 = Some 12
         \<and> size_v x' = 10 \<and> \<not> m_is_small x'
         \<and> operator_index x' 0 = Some 20 \<and> operator_index x' 9 = Some 29"
    using swap_exchanges_state [OF vY vX] X Y by auto
  have 3: "\<exists>s' x'. swap_v ex_X ex_abandoned = Some (s', x')
         \<and> size_v s' = 0 \<and> m_is_small s'
         \<and> size_v x' = 2 \<and> m_is_small x'
         \<and> operator_index x' 0 = Some 11 \<and> operator_index x' 1 = Some 12"
    using swap_exchanges_state [OF vX vA] X A by auto
  have 4: "\<exists>s' x'. swap_v ex_Y ex_filled = Some (s', x')
         \<and> size_v s' = 6 \<and> \<not> m_is_small s'
         \<and> operator_index s' 0 = Some 7 \<and> operator_index s' 5 = Some 0
         \<and> size_v x' = 10 \<and> \<not> m_is_small x'
         \<and> operator_index x' 0 = Some 20 \<and> operator_index x' 9 = Some 29"
    using swap_exchanges_state [OF vY vF] Y F by auto
  show ?thesis
    using vX vY vA vF 1 2 3 4 by blast
qed

text \<open>
  \<open>x.swap(x)\<close>: exchanging a container with itself leaves it as it is.
\<close>

lemma swap_v_self: "swap_v s s = Some (s, s)"
  by (simp add: swap_v_def swap_storage_def)

subsection \<open>The invariant of the mode\<close>

lemma operator_index_assign_valid:
  "valid K s \<Longrightarrow> operator_index_assign s i v = Some s' \<Longrightarrow> valid K s'"
  by (auto simp: operator_index_assign_def valid_def mode_inv_def split: if_splits)

lemma resize_mode_inv:
  "mode_inv K s \<Longrightarrow> resize al K d n s = Returns s' \<or> resize al K d n s = Throws s' \<Longrightarrow>
     mode_inv K s'"
  by (auto simp: resize_def resize_migrate_def resize_commit_def mode_inv_def Let_def
      split: outcome.splits option.splits if_splits)

lemma swap_v_mode_inv:
  "mode_inv K s \<Longrightarrow> mode_inv K x \<Longrightarrow> swap_v s x = Some (s', x') \<Longrightarrow>
     mode_inv K s' \<and> mode_inv K x'"
  using swap_v_fields [of s x s' x'] by (simp add: mode_inv_def)

lemma operator_index_assign_mode_inv:
  "mode_inv K s \<Longrightarrow> operator_index_assign s i v = Some s' \<Longrightarrow> mode_inv K s'"
  by (auto simp: operator_index_assign_def mode_inv_def split: if_splits)

text \<open>
  Claim C5. The invariant \<open>Mode == Small\<close> if and only if \<open>size \<le> K\<close> holds in the
  initial state (small, size 0) and is preserved by every public operation that
  changes a container: \<open>resize\<close> with any argument, whether it returns or an
  allocation throws, \<open>swap\<close> between two containers that satisfy it, and an
  assignment through \<open>operator[]\<close>.
\<close>

theorem mode_invariant_preserved:
  "mode_inv K (vector_init a0)
   \<and> (mode_inv K s \<and> (resize al K d n s = Returns s1 \<or> resize al K d n s = Throws s1)
        \<longrightarrow> mode_inv K s1)
   \<and> (mode_inv K s \<and> mode_inv K x \<and> swap_v s x = Some (s2, x2)
        \<longrightarrow> mode_inv K s2 \<and> mode_inv K x2)
   \<and> (mode_inv K s \<and> operator_index_assign s i v = Some s3 \<longrightarrow> mode_inv K s3)"
  using resize_mode_inv [of K s al d n s1] swap_v_mode_inv [of K s x s2 x2]
    operator_index_assign_mode_inv [of K s i v s3]
  by (auto simp: mode_inv_def vector_init_def)

theorem mode_invariant_preserved_witness:
  "mode_inv 4 (vector_init [0, 0, 0, 0 :: nat]) \<and> mode_inv 4 ex_X \<and> mode_inv 4 ex_Y
   \<and> resize alloc_exact 4 0 6 ex_X =
       Returns \<lparr>m_v = \<lparr>elems = [11, 12, 0, 0, 0, 0], capacity = 6\<rparr>, m_a = [11, 12, 0, 0],
                 m_is_small = False, m_size = 6\<rparr>
   \<and> mode_inv 4 \<lparr>m_v = \<lparr>elems = [11, 12, 0, 0, 0, 0 :: nat], capacity = 6\<rparr>,
                   m_a = [11, 12, 0, 0], m_is_small = False, m_size = 6\<rparr>
   \<and> swap_v ex_X ex_Y =
       Some (ex_X\<lparr>m_v := m_v ex_Y, m_size := 10, m_is_small := False\<rparr>,
             ex_Y\<lparr>m_v := m_v ex_X, m_a := m_a ex_X, m_size := 2, m_is_small := True\<rparr>)
   \<and> mode_inv 4 (ex_X\<lparr>m_v := m_v ex_Y, m_size := 10, m_is_small := False\<rparr>)
   \<and> mode_inv 4 (ex_Y\<lparr>m_v := m_v ex_X, m_a := m_a ex_X, m_size := 2, m_is_small := True\<rparr>)
   \<and> operator_index_assign ex_X 0 5 = Some (ex_X\<lparr>m_a := [5, 12, 0, 0]\<rparr>)
   \<and> mode_inv 4 (ex_X\<lparr>m_a := [5, 12, 0, 0]\<rparr>)"
proof -
  let ?s1 = "\<lparr>m_v = \<lparr>elems = [11, 12, 0, 0, 0, 0 :: nat], capacity = 6\<rparr>,
                   m_a = [11, 12, 0, 0], m_is_small = False, m_size = 6\<rparr>"
  let ?s2 = "ex_X\<lparr>m_v := m_v ex_Y, m_size := 10, m_is_small := False\<rparr>"
  let ?x2 = "ex_Y\<lparr>m_v := m_v ex_X, m_a := m_a ex_X, m_size := 2, m_is_small := True\<rparr>"
  let ?s3 = "ex_X\<lparr>m_a := [5, 12, 0, 0]\<rparr>"
  have mX: "mode_inv 4 ex_X" and mY: "mode_inv 4 ex_Y"
    by code_simp+
  have r: "resize alloc_exact 4 0 6 ex_X = Returns ?s1"
    by code_simp
  have sw: "swap_v ex_X ex_Y = Some (?s2, ?x2)"
    by code_simp
  have a: "operator_index_assign ex_X 0 5 = Some ?s3"
    by code_simp
  have "mode_inv 4 (vector_init [0, 0, 0, 0 :: nat]) \<and> mode_inv 4 ?s1 \<and> mode_inv 4 ?s2
      \<and> mode_inv 4 ?x2 \<and> mode_inv 4 ?s3"
    using mode_invariant_preserved
        [of 4 "[0, 0, 0, 0]" ex_X alloc_exact 0 6 ?s1 ex_Y ?s2 ?x2 0 5 ?s3]
      mX mY r sw a by blast
  then show ?thesis
    using mX mY r sw a by blast
qed
subsection \<open>The containers a program can hold\<close>

text \<open>
  Every container built through the public interface by calls that returned
  satisfies the representation invariant, which the theorems about \<open>every
  container\<close> assume.
\<close>

lemma vector_init_valid: "length a0 = K \<Longrightarrow> valid K (vector_init a0)"
  by (simp add: valid_def mode_inv_def vector_init_def)

lemma reachable_valid: "reachable K s \<Longrightarrow> valid K s"
proof (induction rule: reachable.induct)
  case (reachable_init a0)
  then show ?case by (rule vector_init_valid)
next
  case (reachable_resize s al d n s')
  then show ?case by (blast intro: resize_valid)
next
  case (reachable_assign s i x s')
  then show ?case by (blast intro: operator_index_assign_valid)
next
  case (reachable_swap_this s x s' x')
  then show ?case by (blast dest: swap_v_valid)
next
  case (reachable_swap_other s x s' x')
  then show ?case by (blast dest: swap_v_valid)
qed

subsection \<open>Iteration\<close>

lemma traverse_range:
  "i \<le> m \<Longrightarrow> m \<le> length (buffer s b) \<Longrightarrow>
     traverse s \<lparr>m_ptr = (b, int i)\<rparr> \<lparr>m_ptr = (b, int m)\<rparr> =
       Some (take (m - i) (drop i (buffer s b)))"
proof (induction "m - i" arbitrary: i)
  case 0
  then show ?case
    by (subst traverse.simps) (simp add: operator_neq_def)
next
  case (Suc k)
  then have lt: "i < m" and k: "k = m - Suc i"
    by simp_all
  have "traverse s \<lparr>m_ptr = (b, int (Suc i))\<rparr> \<lparr>m_ptr = (b, int m)\<rparr> =
       Some (take (m - Suc i) (drop (Suc i) (buffer s b)))"
    using Suc.hyps(1) [OF k] lt Suc.prems by simp
  then have step: "traverse s \<lparr>m_ptr = (b, int i + 1)\<rparr> \<lparr>m_ptr = (b, int m)\<rparr> =
       Some (take (m - Suc i) (drop (Suc i) (buffer s b)))"
    by (simp add: add.commute)
  have inc: "snd (operator_inc_int \<lparr>m_ptr = (b, int i)\<rparr>) = \<lparr>m_ptr = (b, int i + 1)\<rparr>"
    by (simp add: operator_inc_int_def ptr_add_def Let_def)
  have deref: "operator_deref s \<lparr>m_ptr = (b, int i)\<rparr> = Some (buffer s b ! i)"
    using lt Suc.prems by (simp add: operator_deref_def Let_def)
  have neq: "operator_neq \<lparr>m_ptr = (b, int i)\<rparr> \<lparr>m_ptr = (b, int m)\<rparr>"
    using lt by (simp add: operator_neq_def)
  have "take (m - i) (drop i (buffer s b)) =
          buffer s b ! i # take (m - Suc i) (drop (Suc i) (buffer s b))"
    using lt Suc.prems
    by (metis Cons_nth_drop_Suc Suc_diff_Suc less_le_trans take_Suc_Cons)
  then show ?case
    by (subst traverse.simps) (simp add: neq deref inc step)
qed

text \<open>
  The loop may as well step with \<open>++it\<close>: both operators leave the iterator at the
  same address.
\<close>

lemma operator_inc_step: "snd (operator_inc it) = snd (operator_inc_int it)"
  by (simp add: operator_inc_def operator_inc_int_def Let_def)

text \<open>
  Claim C7. Iteration agrees with indexing: for every container, in either mode,
  the traversal from \<open>begin()\<close> to \<open>end()\<close> ends and yields exactly \<open>size()\<close>
  elements, in index order, each the value \<open>operator[]\<close> returns for its index.
\<close>

theorem iteration_agrees_with_indexing:
  assumes "valid K s"
  shows "\<exists>xs. traverse s (begin_v s) (end_v s) = Some xs
           \<and> length xs = size_v s
           \<and> (\<forall>i<size_v s. operator_index s i = Some (xs ! i))"
proof -
  let ?b = "if m_is_small s then m_a_data else m_v_data"
  have le: "m_size s \<le> length (buffer s ?b)"
    using assms by (auto simp: valid_def mode_inv_def buffer_def)
  have b: "begin_v s = \<lparr>m_ptr = (?b, int 0)\<rparr>" "end_v s = \<lparr>m_ptr = (?b, int (m_size s))\<rparr>"
    by (simp_all add: begin_v_def end_v_def ptr_add_def)
  have t: "traverse s (begin_v s) (end_v s) = Some (take (m_size s) (buffer s ?b))"
    unfolding b using traverse_range [of 0 "m_size s" s ?b] le by simp
  have "\<forall>i<m_size s. operator_index s i = Some (take (m_size s) (buffer s ?b) ! i)"
    using le by (auto simp: operator_index_def buffer_def)
  then show ?thesis
    using t le by (simp add: size_v_def)
qed

theorem iteration_agrees_with_indexing_witness:
  "valid 4 ex_X \<and> valid 4 ex_Y
   \<and> traverse ex_X (begin_v ex_X) (end_v ex_X) = Some [11, 12]
   \<and> operator_index ex_X 0 = Some 11 \<and> operator_index ex_X 1 = Some 12
   \<and> traverse ex_Y (begin_v ex_Y) (end_v ex_Y) = Some [20, 21, 22, 23, 24, 25, 26, 27, 28, 29]
   \<and> operator_index ex_Y 0 = Some 20 \<and> operator_index ex_Y 9 = Some 29"
proof -
  have vX: "valid 4 ex_X" and vY: "valid 4 ex_Y"
    by code_simp+
  have sz: "size_v ex_X = 2" "size_v ex_Y = 10"
    by code_simp+
  have tX: "traverse ex_X (begin_v ex_X) (end_v ex_X) = Some [11, 12]"
    by code_simp
  have tY: "traverse ex_Y (begin_v ex_Y) (end_v ex_Y) =
      Some [20, 21, 22, 23, 24, 25, 26, 27, 28, 29]"
    by code_simp
  have "\<forall>i<2. operator_index ex_X i = Some ([11, 12] ! i)"
    using iteration_agrees_with_indexing [OF vX] tX sz by simp
  then have X: "operator_index ex_X 0 = Some 11" "operator_index ex_X 1 = Some 12"
    by auto
  have "\<forall>i<10. operator_index ex_Y i = Some ([20, 21, 22, 23, 24, 25, 26, 27, 28, 29] ! i)"
    using iteration_agrees_with_indexing [OF vY] tY sz by simp
  then have Y: "operator_index ex_Y 0 = Some 20" "operator_index ex_Y 9 = Some 29"
    by auto
  show ?thesis
    using vX vY tX tY X Y by simp
qed

subsection \<open>Crossing between the modes\<close>

text \<open>
  The two migrations copy different numbers of elements. Growing out of the array
  copies the \<^emph>\<open>old\<close> size \<open>m_size\<close> of elements into the vector, which is then
  filled up to \<open>n\<close> with \<open>T()\<close>; with the old size 0 nothing is copied, and the
  vector keeps what it held. Shrinking into the array copies the \<^emph>\<open>new\<close> size \<open>n\<close> of
  elements and leaves the vector as it is.
\<close>

lemma resize_cross_to_large:
  assumes "valid K s" and "m_is_small s" and "K < n" and "resize al K d n s = Returns s'"
  shows "m_a s' = m_a s
       \<and> elems (m_v s') =
           (if m_size s \<noteq> 0 then take (m_size s) (m_a s) @ replicate (n - m_size s) d
            else take n (elems (m_v s)) @ replicate (n - length (elems (m_v s))) d)"
  using assms
  by (auto simp: resize_def resize_migrate_def resize_commit_def valid_def mode_inv_def Let_def
      split: outcome.splits option.splits if_splits dest!: vec_assign_Some vec_resize_Some)

lemma resize_cross_to_small:
  assumes "valid K s" and "\<not> m_is_small s" and "n \<le> K" and "resize al K d n s = Returns s'"
  shows "m_v s' = m_v s \<and> m_a s' = take n (elems (m_v s)) @ drop n (m_a s)"
  using assms
  by (auto simp: resize_def resize_migrate_def resize_commit_def valid_def mode_inv_def Let_def
      split: outcome.splits option.splits if_splits dest!: std_copy_Some)

lemma resize_stay_small:
  assumes "m_is_small s" and "n \<le> K"
  shows "resize al K d n s = Returns (s\<lparr>m_size := n\<rparr>)"
  using assms
  by (auto simp: resize_def resize_migrate_def resize_commit_def Let_def)

lemma operator_index_assign_small:
  "m_is_small s \<Longrightarrow> i < length (m_a s) \<Longrightarrow>
     operator_index_assign s i x = Some (s\<lparr>m_a := (m_a s)[i := x]\<rparr>)"
  by (simp add: operator_index_assign_def)

lemma resize_cross_to_large_prefix:
  assumes "valid K s" and "m_is_small s" and "m_size s \<noteq> 0" and "K < n"
    and "resize al K d n s = Returns s'"
  shows "\<forall>i<m_size s. operator_index s' i = operator_index s i"
proof -
  have f: "\<not> m_is_small s'" "length (elems (m_v s')) = n"
    using resize_Returns_fields [OF assms(5)] resize_Returns_length [OF assms(5)] assms(4)
    by simp_all
  have le: "m_size s \<le> length (m_a s)" "length (m_a s) = K"
    using assms(1,2) by (simp_all add: valid_def mode_inv_def)
  have e: "elems (m_v s') = take (m_size s) (m_a s) @ replicate (n - m_size s) d"
    using resize_cross_to_large [OF assms(1,2,4,5)] assms(3) by simp
  show ?thesis
    using f le e assms(2,4) by (auto simp: operator_index_def nth_append)
qed

lemma resize_cross_to_small_prefix:
  assumes "valid K t" and "\<not> m_is_small t" and "m \<le> K"
    and "resize al K d m t = Returns t'"
  shows "\<forall>i<m. operator_index t' i = operator_index t i"
proof -
  have f: "m_is_small t'"
    using resize_Returns_fields [OF assms(4)] assms(3) by simp
  have le: "length (m_a t) = K" "K < length (elems (m_v t))"
    using assms(1,2) by (auto simp: valid_def mode_inv_def)
  have e: "m_a t' = take m (elems (m_v t)) @ drop m (m_a t)"
    using resize_cross_to_small [OF assms] by simp
  show ?thesis
    using f le e assms(2,3) by (auto simp: operator_index_def nth_append)
qed

lemma round_trip_scenario:
  assumes "length a0 = 4" and "never_fails al"
  shows "\<exists>s1 s2 s3 s4 s5 s6.
           resize al 4 d 3 (vector_init a0) = Returns s1
         \<and> operator_index_assign s1 0 a = Some s2
         \<and> operator_index_assign s2 1 b = Some s3
         \<and> operator_index_assign s3 2 c = Some s4
         \<and> resize al 4 d 6 s4 = Returns s5
         \<and> \<not> m_is_small s5 \<and> size_v s5 = 6 \<and> elems (m_v s5) = [a, b, c, d, d, d]
         \<and> resize al 4 d 2 s5 = Returns s6
         \<and> m_a s6 = [a, b, c, a0 ! 3] \<and> m_v s6 = m_v s5
         \<and> operator_index s6 0 = Some a \<and> operator_index s6 1 = Some b
         \<and> size_v s6 = 2 \<and> m_is_small s6"
proof -
  obtain x0 x1 x2 x3 where a0: "a0 = [x0, x1, x2, x3]"
    using assms(1) by (auto simp: numeral_eq_Suc length_Suc_conv)
  define s1 where "s1 = (vector_init a0)\<lparr>m_size := 3\<rparr>"
  define s2 where "s2 = s1\<lparr>m_a := [a, x1, x2, x3]\<rparr>"
  define s3 where "s3 = s1\<lparr>m_a := [a, b, x2, x3]\<rparr>"
  define s4 where "s4 = s1\<lparr>m_a := [a, b, c, x3]\<rparr>"
  have r1: "resize al 4 d 3 (vector_init a0) = Returns s1"
    unfolding s1_def by (rule resize_stay_small) (simp_all add: vector_init_def)
  have w: "operator_index_assign s1 0 a = Some s2" "operator_index_assign s2 1 b = Some s3"
    "operator_index_assign s3 2 c = Some s4"
    by (simp_all add: operator_index_assign_small s1_def s2_def s3_def s4_def
        vector_init_def a0)
  have s4: "m_is_small s4" "m_size s4 = 3" "m_a s4 = [a, b, c, x3]"
    by (simp_all add: s4_def s1_def vector_init_def)
  have v4: "valid 4 s4"
    by (simp add: valid_def mode_inv_def s4_def s1_def vector_init_def)
  obtain s5 where r5: "resize al 4 d 6 s4 = Returns s5"
    using resize_returns [OF v4 assms(2)] by blast
  have f5: "\<not> m_is_small s5" "m_size s5 = 6"
    using resize_Returns_fields [OF r5] by simp_all
  have e5: "m_a s5 = [a, b, c, x3]" "elems (m_v s5) = [a, b, c, d, d, d]"
    using resize_cross_to_large [OF v4 s4(1) _ r5] s4
    by (simp_all add: numeral_eq_Suc)
  have v5: "valid 4 s5"
    using resize_valid [OF v4 r5] .
  obtain s6 where r6: "resize al 4 d 2 s5 = Returns s6"
    using resize_returns [OF v5 assms(2)] by blast
  have f6: "m_is_small s6" "m_size s6 = 2"
    using resize_Returns_fields [OF r6] by simp_all
  have e6: "m_a s6 = [a, b, c, a0 ! 3]" "m_v s6 = m_v s5"
    using resize_cross_to_small [OF v5 f5(1) _ r6] e5
    by (simp_all add: numeral_eq_Suc a0)
  have "operator_index s6 0 = Some a" "operator_index s6 1 = Some b"
    using f6 e6 by (simp_all add: operator_index_def)
  then show ?thesis
    using r1 w r5 f5 e5 r6 f6 e6 by (auto simp: size_v_def)
qed

text \<open>
  Claim C1. A resize that crosses between the modes copies a different number of
  elements in each direction, and keeps the elements below the size in view. Growing
  out of the array copies the old size of elements: the vector then holds the first
  \<open>m_size\<close> slots of the array followed by \<open>T()\<close> up to \<open>n\<close>. Shrinking into the
  array copies the new size \<open>n\<close> of elements: exactly the first \<open>n\<close> slots of the
  array are overwritten from the vector, the slots from \<open>n\<close> on keep what the
  array held, and the vector is left alone. In the round trip with \<open>K = 4\<close>, a
  container that starts empty, after \<open>resize(3)\<close>, the assignments of \<open>a\<close>, \<open>b\<close>,
  \<open>c\<close> to the elements 0, 1, 2, \<open>resize(6)\<close> and \<open>resize(2)\<close>, has element 0 equal to
  \<open>a\<close>, element 1 equal to \<open>b\<close>, \<open>size()\<close> equal to 2 and the small mode; in between
  the vector holds \<open>a, b, c\<close> and three \<open>T()\<close>, and at the end the fourth slot of
  the array still holds what it held at the start. Every call of the sequence
  returns when no allocation fails.
\<close>

theorem growth_then_shrink_round_trip:
  "(valid K s \<and> m_is_small s \<and> m_size s \<noteq> 0 \<and> K < n \<and> resize al K d n s = Returns s' \<longrightarrow>
      elems (m_v s') = take (m_size s) (m_a s) @ replicate (n - m_size s) d
      \<and> m_a s' = m_a s
      \<and> (\<forall>i<m_size s. operator_index s' i = operator_index s i))
   \<and> (valid K t \<and> \<not> m_is_small t \<and> m \<le> K \<and> resize al K d m t = Returns t' \<longrightarrow>
      m_a t' = take m (elems (m_v t)) @ drop m (m_a t)
      \<and> m_v t' = m_v t
      \<and> (\<forall>i<m. operator_index t' i = operator_index t i))
   \<and> (length a0 = 4 \<and> never_fails al \<longrightarrow>
        (\<exists>s1 s2 s3 s4 s5 s6.
           resize al 4 d 3 (vector_init a0) = Returns s1
         \<and> operator_index_assign s1 0 a = Some s2
         \<and> operator_index_assign s2 1 b = Some s3
         \<and> operator_index_assign s3 2 c = Some s4
         \<and> resize al 4 d 6 s4 = Returns s5
         \<and> \<not> m_is_small s5 \<and> size_v s5 = 6 \<and> elems (m_v s5) = [a, b, c, d, d, d]
         \<and> resize al 4 d 2 s5 = Returns s6
         \<and> m_a s6 = [a, b, c, a0 ! 3] \<and> m_v s6 = m_v s5
         \<and> operator_index s6 0 = Some a \<and> operator_index s6 1 = Some b
         \<and> size_v s6 = 2 \<and> m_is_small s6))"
proof (intro conjI impI)
  assume h: "valid K s \<and> m_is_small s \<and> m_size s \<noteq> 0 \<and> K < n \<and> resize al K d n s = Returns s'"
  then show "elems (m_v s') = take (m_size s) (m_a s) @ replicate (n - m_size s) d"
    using resize_cross_to_large [of K s n al d s'] by simp
  from h show "m_a s' = m_a s"
    using resize_cross_to_large [of K s n al d s'] by simp
  from h show "\<forall>i<m_size s. operator_index s' i = operator_index s i"
    using resize_cross_to_large_prefix [of K s n al d s'] by simp
next
  assume h: "valid K t \<and> \<not> m_is_small t \<and> m \<le> K \<and> resize al K d m t = Returns t'"
  then show "m_a t' = take m (elems (m_v t)) @ drop m (m_a t)"
    using resize_cross_to_small [of K t m al d t'] by simp
  from h show "m_v t' = m_v t"
    using resize_cross_to_small [of K t m al d t'] by simp
  from h show "\<forall>i<m. operator_index t' i = operator_index t i"
    using resize_cross_to_small_prefix [of K t m al d t'] by simp
next
  assume "length a0 = 4 \<and> never_fails al"
  then show "\<exists>s1 s2 s3 s4 s5 s6.
           resize al 4 d 3 (vector_init a0) = Returns s1
         \<and> operator_index_assign s1 0 a = Some s2
         \<and> operator_index_assign s2 1 b = Some s3
         \<and> operator_index_assign s3 2 c = Some s4
         \<and> resize al 4 d 6 s4 = Returns s5
         \<and> \<not> m_is_small s5 \<and> size_v s5 = 6 \<and> elems (m_v s5) = [a, b, c, d, d, d]
         \<and> resize al 4 d 2 s5 = Returns s6
         \<and> m_a s6 = [a, b, c, a0 ! 3] \<and> m_v s6 = m_v s5
         \<and> operator_index s6 0 = Some a \<and> operator_index s6 1 = Some b
         \<and> size_v s6 = 2 \<and> m_is_small s6"
    using round_trip_scenario [of a0 al d a b c] by simp
qed

theorem growth_then_shrink_round_trip_witness:
  "valid 4 ex_W \<and> m_is_small ex_W \<and> m_size ex_W \<noteq> 0 \<and> (4 :: nat) < 6
   \<and> (\<exists>s'. resize alloc_exact 4 0 6 ex_W = Returns s'
          \<and> elems (m_v s') = [11, 12, 0, 0, 0, 0] \<and> m_a s' = [11, 12, 13, 14]
          \<and> operator_index s' 0 = Some 11 \<and> operator_index s' 1 = Some 12)
   \<and> valid 4 ex_Y \<and> \<not> m_is_small ex_Y \<and> (2 :: nat) \<le> 4
   \<and> (\<exists>t'. resize alloc_exact 4 0 2 ex_Y = Returns t'
          \<and> m_a t' = [20, 21, 0, 0] \<and> m_v t' = m_v ex_Y
          \<and> operator_index t' 0 = Some 20 \<and> operator_index t' 1 = Some 21)
   \<and> length [9, 9, 9, 9 :: nat] = 4 \<and> never_fails alloc_exact
   \<and> (\<exists>s1 s2 s3 s4 s5 s6.
           resize alloc_exact 4 0 3 (vector_init [9, 9, 9, 9 :: nat]) = Returns s1
         \<and> operator_index_assign s1 0 1 = Some s2
         \<and> operator_index_assign s2 1 2 = Some s3
         \<and> operator_index_assign s3 2 3 = Some s4
         \<and> resize alloc_exact 4 0 6 s4 = Returns s5
         \<and> \<not> m_is_small s5 \<and> size_v s5 = 6 \<and> elems (m_v s5) = [1, 2, 3, 0, 0, 0]
         \<and> resize alloc_exact 4 0 2 s5 = Returns s6
         \<and> m_a s6 = [1, 2, 3, 9] \<and> m_v s6 = m_v s5
         \<and> operator_index s6 0 = Some 1 \<and> operator_index s6 1 = Some 2
         \<and> size_v s6 = 2 \<and> m_is_small s6)"
proof -
  let ?s' = "\<lparr>m_v = \<lparr>elems = [11, 12, 0, 0, 0, 0 :: nat], capacity = 6\<rparr>,
         m_a = [11, 12, 13, 14], m_is_small = False, m_size = 6\<rparr>"
  let ?t' = "\<lparr>m_v = \<lparr>elems = [20, 21, 22, 23, 24, 25, 26, 27, 28, 29 :: nat], capacity = 10\<rparr>,
         m_a = [20, 21, 0, 0], m_is_small = True, m_size = 2\<rparr>"
  have W: "valid 4 ex_W" "m_is_small ex_W" "m_size ex_W \<noteq> 0" "m_size ex_W = 2"
    "m_a ex_W = [11, 12, 13, 14]"
    "operator_index ex_W 0 = Some 11" "operator_index ex_W 1 = Some 12"
    by code_simp+
  have Y: "valid 4 ex_Y" "\<not> m_is_small ex_Y" "m_a ex_Y = [0, 0, 0, 0]"
    "elems (m_v ex_Y) = [20, 21, 22, 23, 24, 25, 26, 27, 28, 29]"
    "operator_index ex_Y 0 = Some 20" "operator_index ex_Y 1 = Some 21"
    by code_simp+
  have rW: "resize alloc_exact 4 0 6 ex_W = Returns ?s'"
    by code_simp
  have rY: "resize alloc_exact 4 0 2 ex_Y = Returns ?t'"
    by code_simp
  have l: "length [9, 9, 9, 9 :: nat] = 4" "(4 :: nat) < 6" "(2 :: nat) \<le> 4"
    by simp_all
  note inst = growth_then_shrink_round_trip [where K = 4 and s = ex_W and n = 6
      and al = alloc_exact and d = 0 and s' = ?s' and t = ex_Y and m = 2 and t' = ?t'
      and ?a0.0 = "[9, 9, 9, 9]" and a = 1 and b = 2 and c = 3]
  have g: "elems (m_v ?s') = take (m_size ex_W) (m_a ex_W) @ replicate (6 - m_size ex_W) 0
      \<and> m_a ?s' = m_a ex_W \<and> (\<forall>i<m_size ex_W. operator_index ?s' i = operator_index ex_W i)"
    using inst W(1-3) l(2) rW by blast
  have cW: "take (m_size ex_W) (m_a ex_W) @ replicate (6 - m_size ex_W) 0 = [11, 12, 0, 0, 0, 0]"
    by code_simp
  have g1: "elems (m_v ?s') = [11, 12, 0, 0, 0, 0]"
    using conjunct1 [OF g] cW by (rule trans)
  have g2: "m_a ?s' = [11, 12, 13, 14]"
    using conjunct1 [OF conjunct2 [OF g]] W(5) by (rule trans)
  have g3: "\<forall>i<m_size ex_W. operator_index ?s' i = operator_index ex_W i"
    using g by (rule conjunct2 [OF conjunct2])
  have g4: "operator_index ?s' 0 = Some 11" "operator_index ?s' 1 = Some 12"
    using g3 W(4,6,7) by simp_all
  have k: "m_a ?t' = take 2 (elems (m_v ex_Y)) @ drop 2 (m_a ex_Y)
      \<and> m_v ?t' = m_v ex_Y \<and> (\<forall>i<2. operator_index ?t' i = operator_index ex_Y i)"
    using inst Y(1,2) l(3) rY by blast
  have cY: "take 2 (elems (m_v ex_Y)) @ drop 2 (m_a ex_Y) = [20, 21, 0, 0]"
    by code_simp
  have k1: "m_a ?t' = [20, 21, 0, 0]"
    using conjunct1 [OF k] cY by (rule trans)
  have k2: "m_v ?t' = m_v ex_Y"
    using k by (rule conjunct1 [OF conjunct2])
  have k3: "\<forall>i<2. operator_index ?t' i = operator_index ex_Y i"
    using k by (rule conjunct2 [OF conjunct2])
  have k4: "operator_index ?t' 0 = Some 20" "operator_index ?t' 1 = Some 21"
    using k3 Y(5,6) by simp_all
  have sc: "\<exists>s1 s2 s3 s4 s5 s6.
           resize alloc_exact 4 0 3 (vector_init [9, 9, 9, 9 :: nat]) = Returns s1
         \<and> operator_index_assign s1 0 1 = Some s2
         \<and> operator_index_assign s2 1 2 = Some s3
         \<and> operator_index_assign s3 2 3 = Some s4
         \<and> resize alloc_exact 4 0 6 s4 = Returns s5
         \<and> \<not> m_is_small s5 \<and> size_v s5 = 6 \<and> elems (m_v s5) = [1, 2, 3, 0, 0, 0]
         \<and> resize alloc_exact 4 0 2 s5 = Returns s6
         \<and> m_a s6 = [1, 2, 3, 9] \<and> m_v s6 = m_v s5
         \<and> operator_index s6 0 = Some 1 \<and> operator_index s6 1 = Some 2
         \<and> size_v s6 = 2 \<and> m_is_small s6"
    using inst l(1) never_fails_alloc_exact by simp
  have eW: "\<exists>s'. resize alloc_exact 4 0 6 ex_W = Returns s'
          \<and> elems (m_v s') = [11, 12, 0, 0, 0, 0] \<and> m_a s' = [11, 12, 13, 14]
          \<and> operator_index s' 0 = Some 11 \<and> operator_index s' 1 = Some 12"
    using rW g1 g2 g4 by blast
  have eY: "\<exists>t'. resize alloc_exact 4 0 2 ex_Y = Returns t'
          \<and> m_a t' = [20, 21, 0, 0] \<and> m_v t' = m_v ex_Y
          \<and> operator_index t' 0 = Some 20 \<and> operator_index t' 1 = Some 21"
    using rY k1 k2 k4 by blast
  show ?thesis
    using W(1-3) Y(1,2) l never_fails_alloc_exact eW eY sc by blast
qed

text \<open>
  Claim C2, as the code has it. When \<open>resize(n)\<close> with \<open>n > K\<close> crosses from the
  small to the large mode and the old size is not 0, the slots from the old size up
  to \<open>n - 1\<close> hold \<open>T()\<close>. When the old size is 0 the block \<open>if (m_size)\<close> skips
  \<open>m_v.assign\<close>, so the vector keeps the elements an earlier large episode left in
  it: only the slots from the vector's previous length up to \<open>n - 1\<close> hold \<open>T()\<close>,
  and the slots below it show the old elements again.
\<close>

theorem default_slots_after_crossing:
  assumes "valid K s" and "m_is_small s" and "K < n" and "resize al K d n s = Returns s'"
  shows "(m_size s \<noteq> 0 \<longrightarrow> (\<forall>i. m_size s \<le> i \<and> i < n \<longrightarrow> operator_index s' i = Some d))
       \<and> (m_size s = 0 \<longrightarrow>
            (\<forall>i. length (elems (m_v s)) \<le> i \<and> i < n \<longrightarrow> operator_index s' i = Some d)
          \<and> (\<forall>i. i < length (elems (m_v s)) \<and> i < n \<longrightarrow>
                 operator_index s' i = Some (elems (m_v s) ! i)))"
proof -
  have f: "\<not> m_is_small s'" "length (elems (m_v s')) = n"
    using resize_Returns_fields [OF assms(4)] resize_Returns_length [OF assms(4)] assms(3)
    by simp_all
  have le: "m_size s \<le> length (m_a s)"
    using assms(1,2) by (simp add: valid_def mode_inv_def)
  show ?thesis
    using resize_cross_to_large [OF assms] f le
    by (auto simp: operator_index_def nth_append)
qed

theorem default_slots_after_crossing_witness:
  "valid 4 ex_X \<and> m_is_small ex_X \<and> (4 :: nat) < 6 \<and> m_size ex_X = 2
   \<and> (\<exists>s'. resize alloc_exact 4 0 6 ex_X = Returns s'
          \<and> operator_index s' 2 = Some 0 \<and> operator_index s' 5 = Some 0)
   \<and> valid 4 ex_abandoned \<and> m_is_small ex_abandoned \<and> (4 :: nat) < 8
   \<and> m_size ex_abandoned = 0
   \<and> (\<exists>s'. resize alloc_exact 4 0 8 ex_abandoned = Returns s'
          \<and> operator_index s' 0 = Some 7 \<and> operator_index s' 5 = Some 0
          \<and> operator_index s' 6 = Some 0 \<and> operator_index s' 7 = Some 0)"
proof -
  let ?s = "\<lparr>m_v = \<lparr>elems = [11, 12, 0, 0, 0, 0 :: nat], capacity = 6\<rparr>,
         m_a = [11, 12, 0, 0], m_is_small = False, m_size = 6\<rparr>"
  let ?t = "\<lparr>m_v = \<lparr>elems = [7, 0, 0, 0, 0, 0, 0, 0 :: nat], capacity = 8\<rparr>,
         m_a = [0, 0, 0, 0], m_is_small = False, m_size = 8\<rparr>"
  have vX: "valid 4 ex_X" and sX: "m_is_small ex_X" and zX: "m_size ex_X = 2"
    by code_simp+
  have vA: "valid 4 ex_abandoned" and sA: "m_is_small ex_abandoned"
    and zA: "m_size ex_abandoned = 0" and lA: "length (elems (m_v ex_abandoned)) = 6"
    and eA: "elems (m_v ex_abandoned) ! 0 = 7" "elems (m_v ex_abandoned) ! 5 = 0"
    by code_simp+
  have rX: "resize alloc_exact 4 0 6 ex_X = Returns ?s"
    by code_simp
  have rA: "resize alloc_exact 4 0 8 ex_abandoned = Returns ?t"
    by code_simp
  have lt: "(4 :: nat) < 6" "(4 :: nat) < 8"
    by simp_all
  have X: "operator_index ?s 2 = Some 0" "operator_index ?s 5 = Some 0"
    using default_slots_after_crossing [OF vX sX lt(1) rX] zX by simp_all
  have A: "operator_index ?t 0 = Some 7" "operator_index ?t 5 = Some 0"
    "operator_index ?t 6 = Some 0" "operator_index ?t 7 = Some 0"
    using default_slots_after_crossing [OF vA sA lt(2) rA] zA lA eA by simp_all
  show ?thesis
    using vX sX zX rX X vA sA zA rA A by simp
qed

text \<open>
  The claim as stated fails: \<open>ex_filled\<close>, reached from a new container by
  \<open>resize(6)\<close> and an assignment of 7 to element 0, is emptied by \<open>resize(0)\<close>; a
  further \<open>resize(6)\<close> then crosses from the small mode with old size 0 and brings
  \<open>ex_filled\<close> back, whose slot 0 holds 7 and not \<open>T() = 0\<close>.
\<close>

theorem stale_slots_after_crossing_counterexample:
  "resize alloc_exact 4 0 6 (vector_init [0, 0, 0, 0 :: nat]) =
       Returns \<lparr>m_v = \<lparr>elems = [0, 0, 0, 0, 0, 0], capacity = 6\<rparr>, m_a = [0, 0, 0, 0],
                 m_is_small = False, m_size = 6\<rparr>
   \<and> operator_index_assign
         \<lparr>m_v = \<lparr>elems = [0, 0, 0, 0, 0, 0], capacity = 6\<rparr>, m_a = [0, 0, 0, 0],
           m_is_small = False, m_size = 6\<rparr> 0 7 = Some ex_filled
   \<and> resize alloc_exact 4 0 0 ex_filled = Returns ex_abandoned
   \<and> valid 4 ex_abandoned \<and> m_is_small ex_abandoned \<and> size_v ex_abandoned = 0
   \<and> (4 :: nat) < 6
   \<and> resize alloc_exact 4 0 6 ex_abandoned = Returns ex_filled
   \<and> \<not> m_is_small ex_filled
   \<and> operator_index ex_filled 0 = Some 7
   \<and> operator_index ex_filled 0 \<noteq> Some 0"
  by code_simp

subsection \<open>\<open>resize\<close> when an allocation fails\<close>

text \<open>
  Claim C3, as the code has it. An allocation can fail in two places of
  \<open>resize(n)\<close>, both only when \<open>n > K\<close>. When it is the allocation of the migration,
  \<open>m_v.assign\<close>, the container is exactly what it was before the call. When it is
  the allocation of the final \<open>m_v.resize(m_size)\<close>, the fields have been written
  already: \<open>size()\<close> is \<open>n\<close> and the mode is large, although the vector holds
  fewer than \<open>n\<close> elements, and the container is not what it was before the call.
\<close>

theorem resize_throws_state:
  assumes "valid K s" and "resize al K d n s = Throws s'"
  shows "K < n
       \<and> ((resize_migrate al K n s = Throws s \<and> s' = s)
          \<or> (\<exists>s1. resize_migrate al K n s = Returns s1
                \<and> s' = s1\<lparr>m_size := n, m_is_small := False\<rparr>
                \<and> size_v s' = n \<and> \<not> m_is_small s' \<and> m_a s' = m_a s
                \<and> length (elems (m_v s')) < n \<and> s' \<noteq> s))"
proof (cases "resize_migrate al K n s")
  case (Returns s1)
  then have c: "resize_commit al K d n s1 = Throws s'"
    using assms(2) by (simp add: resize_def)
  then have n: "K < n" and s': "s' = s1\<lparr>m_size := n, m_is_small := False\<rparr>"
    and v: "vec_resize al d n (m_v s1) = None"
    by (auto simp: resize_commit_def Let_def split: if_splits option.splits)
  have l: "length (elems (m_v s1)) < n"
    using v by (auto simp: vec_resize_def split: if_splits)
  have a: "m_a s1 = m_a s"
    using Returns n by (auto simp: resize_migrate_def split: if_splits option.splits)
  have "s' \<noteq> s"
  proof
    assume "s' = s"
    then have "\<not> m_is_small s" "m_size s = n"
      using s' by (metis vector.select_convs(3) vector.surjective vector.update_convs(3,4),
          metis vector.select_convs(4) vector.surjective vector.update_convs(3,4))
    then have "resize_migrate al K n s = Returns s" "length (elems (m_v s)) = n"
      using n assms(1) by (auto simp: resize_migrate_def valid_def)
    then show False
      using Returns l by simp
  qed
  then show ?thesis
    using Returns n s' l a by (simp add: size_v_def)
next
  case (Throws s1)
  then have "s' = s1"
    using assms(2) by (simp add: resize_def)
  moreover have "s1 = s" "K < n"
    using Throws by (auto simp: resize_migrate_def split: if_splits option.splits)
  ultimately show ?thesis
    using Throws by simp
next
  case Undefined
  then show ?thesis
    using assms(2) by (simp add: resize_def)
qed

theorem resize_throws_state_witness:
  "valid 4 ex_X
   \<and> resize (alloc_upto 0) 4 0 6 ex_X = Throws ex_X
   \<and> resize_migrate (alloc_upto 0) 4 6 ex_X = Throws ex_X
   \<and> resize (alloc_upto 2) 4 0 6 ex_X =
       Throws \<lparr>m_v = \<lparr>elems = [11, 12], capacity = 2\<rparr>, m_a = [11, 12, 0, 0],
                m_is_small = False, m_size = 6\<rparr>
   \<and> resize_migrate (alloc_upto 2) 4 6 ex_X \<noteq> Throws ex_X
   \<and> size_v \<lparr>m_v = \<lparr>elems = [11, 12 :: nat], capacity = 2\<rparr>, m_a = [11, 12, 0, 0],
                m_is_small = False, m_size = 6\<rparr> = 6
   \<and> \<lparr>m_v = \<lparr>elems = [11, 12 :: nat], capacity = 2\<rparr>, m_a = [11, 12, 0, 0],
                m_is_small = False, m_size = 6\<rparr> \<noteq> ex_X"
proof -
  let ?s' = "\<lparr>m_v = \<lparr>elems = [11, 12 :: nat], capacity = 2\<rparr>, m_a = [11, 12, 0, 0],
                m_is_small = False, m_size = 6\<rparr>"
  have v: "valid 4 ex_X"
    by code_simp
  have r0: "resize (alloc_upto 0) 4 0 6 ex_X = Throws ex_X"
    and m0: "resize_migrate (alloc_upto 0) 4 6 ex_X = Throws ex_X"
    by code_simp+
  have r2: "resize (alloc_upto 2) 4 0 6 ex_X = Throws ?s'"
    and m2: "resize_migrate (alloc_upto 2) 4 6 ex_X \<noteq> Throws ex_X"
    by code_simp+
  have "size_v ?s' = 6 \<and> ?s' \<noteq> ex_X"
    using resize_throws_state [OF v r2] m2 by blast
  then show ?thesis
    using v r0 m0 r2 m2 by blast
qed

text \<open>
  The claim as stated fails on a new container with no memory left: \<open>resize(6)\<close>
  throws from \<open>m_v.resize(6)\<close>, after \<open>m_size = 6\<close> and \<open>m_is_small = false\<close> have
  been written, so \<open>size()\<close> has changed from 0 to 6 and the mode from small to
  large.
\<close>

theorem resize_atomic_counterexample:
  "resize (alloc_upto 0) 4 0 6 (vector_init [0, 0, 0, 0 :: nat]) =
       Throws \<lparr>m_v = \<lparr>elems = [], capacity = 0\<rparr>, m_a = [0, 0, 0, 0],
                m_is_small = False, m_size = 6\<rparr>
   \<and> size_v (vector_init [0, 0, 0, 0 :: nat]) = 0
   \<and> m_is_small (vector_init [0, 0, 0, 0 :: nat])
   \<and> size_v \<lparr>m_v = \<lparr>elems = [], capacity = 0\<rparr>, m_a = [0, 0, 0, 0 :: nat],
                m_is_small = False, m_size = 6\<rparr> = 6
   \<and> \<not> m_is_small \<lparr>m_v = \<lparr>elems = [], capacity = 0\<rparr>, m_a = [0, 0, 0, 0 :: nat],
                m_is_small = False, m_size = 6\<rparr>"
  by code_simp

end
